theory Spec2Isabelle
  imports Main
begin

section \<open>Values of the host language\<close>

text \<open>
  The registry stores and forwards data: what \<^verbatim>\<open>JSON.parse\<close> and the message codec
  produce and what a caller hands to \<^verbatim>\<open>set\<close> to be written as JSON.  A data value is
  a primitive, or an array or plain object together with the identity of its heap cell:
  two arrays with the same
  elements are different values for \<^verbatim>\<open>===\<close> unless they are the same cell.  The
  properties of an object are listed with each name once.  \<open>JNum n\<close> is the double with
  the integer value \<open>n\<close>; \<open>JNaN\<close> is the one number that differs from itself.
\<close>

datatype jsval =
    JUndefined
  | JNull
  | JBool bool
  | JNum int
  | JNaN
  | JStr string
  | JArr nat "jsval list"
  | JObj nat "(string \<times> jsval) list"

text \<open>
  Reading a property of the mirror can give more than data: the mirror is a plain object,
  so a name it does not hold itself is looked up along its prototype chain.  \<open>Builtin n\<close>
  is the built-in function that the chain holds under the name \<open>n\<close>; \<open>ObjectPrototype\<close>
  is the object \<^verbatim>\<open>Object.prototype\<close>.  Such values leave the registry in events and
  publications; they never come in.
\<close>

datatype jsany =
    Data jsval
  | Builtin string
  | ObjectPrototype

text \<open>\<^verbatim>\<open>a === b\<close> on data: primitives by value (never \<^verbatim>\<open>NaN\<close>), arrays and objects by identity.\<close>

fun strict_eq :: "jsval \<Rightarrow> jsval \<Rightarrow> bool" where
  "strict_eq JUndefined b = (b = JUndefined)"
| "strict_eq JNull b = (b = JNull)"
| "strict_eq (JBool x) b = (b = JBool x)"
| "strict_eq (JNum n) b = (b = JNum n)"
| "strict_eq JNaN b = False"
| "strict_eq (JStr s) b = (b = JStr s)"
| "strict_eq (JArr i xs) b = (case b of JArr j ys \<Rightarrow> i = j | _ \<Rightarrow> False)"
| "strict_eq (JObj i ps) b = (case b of JObj j qs \<Rightarrow> i = j | _ \<Rightarrow> False)"

text \<open>
  \<^verbatim>\<open>a === b\<close> where \<open>a\<close> was read from the mirror or handed to a listener and \<open>b\<close> is
  data: a built-in object is never a data value.
\<close>

fun strict_eq_any :: "jsany \<Rightarrow> jsval \<Rightarrow> bool" where
  "strict_eq_any (Data a) b = strict_eq a b"
| "strict_eq_any (Builtin n) b = False"
| "strict_eq_any ObjectPrototype b = False"

text \<open>Truthiness, as \<^verbatim>\<open>if(err)\<close> tests it.\<close>

fun truthy :: "jsval \<Rightarrow> bool" where
  "truthy JUndefined = False"
| "truthy JNull = False"
| "truthy (JBool b) = b"
| "truthy (JNum n) = (n \<noteq> 0)"
| "truthy JNaN = False"
| "truthy (JStr s) = (s \<noteq> [])"
| "truthy (JArr i xs) = True"
| "truthy (JObj i ps) = True"

text \<open>
  \<^verbatim>\<open>args[i]\<close> and the \<open>i\<close>-th parameter of a listener: reading past the end gives
  \<^verbatim>\<open>undefined\<close>.
\<close>

definition js_nth :: "jsval list \<Rightarrow> nat \<Rightarrow> jsval" where
  "js_nth xs i = (if i < length xs then xs ! i else JUndefined)"

definition arg_nth :: "jsany list \<Rightarrow> nat \<Rightarrow> jsany" where
  "arg_nth xs i = (if i < length xs then xs ! i else Data JUndefined)"

text \<open>
  The string a value becomes when it is used as a property key.  A key that arrives in
  a message is cast (\<^verbatim>\<open>dArgs[0] as string\<close>) but not checked, so the run time converts
  whatever is there; \<open>conv\<close> is its conversion of a value that is not a string.
\<close>

fun ToPropertyKey :: "(jsval \<Rightarrow> string) \<Rightarrow> jsval \<Rightarrow> string" where
  "ToPropertyKey conv (JStr s) = s"
| "ToPropertyKey conv v = conv v"

section \<open>The mirror as a plain object\<close>

text \<open>
  \<^verbatim>\<open>this.store\<close> is created as \<^verbatim>\<open>{}\<close>.  It has its own properties, and a prototype: at
  first \<^verbatim>\<open>Object.prototype\<close>, later whatever an assignment to \<^verbatim>\<open>__proto__\<close> put there,
  which is \<^verbatim>\<open>null\<close>, an array or a plain object.
\<close>

datatype proto =
    ObjectProto
  | NullProto
  | ArrayProto nat "jsval list"
  | ObjProto nat "(string \<times> jsval) list"

text \<open>The function members of \<^verbatim>\<open>Object.prototype\<close>; its one accessor is \<^verbatim>\<open>__proto__\<close>.\<close>

definition Object_prototype_names :: "string list" where
  "Object_prototype_names =
     [''constructor'', ''__defineGetter__'', ''__defineSetter__'', ''hasOwnProperty'',
      ''__lookupGetter__'', ''__lookupSetter__'', ''isPrototypeOf'', ''propertyIsEnumerable'',
      ''toString'', ''valueOf'', ''toLocaleString'']"

text \<open>
  What \<^verbatim>\<open>Object.prototype\<close> gives for a name, at the end of every chain but the empty
  one; \<open>p\<close> is the prototype of the object the read started from, which is what the getter
  of \<^verbatim>\<open>__proto__\<close> returns.
\<close>

definition object_prototype_member :: "jsany \<Rightarrow> string \<Rightarrow> jsany" where
  "object_prototype_member p key =
     (if key = ''__proto__'' then p
      else if key \<in> set Object_prototype_names then Builtin key
      else Data JUndefined)"

text \<open>The canonical decimal form of an array index.\<close>

definition digit_char :: "nat \<Rightarrow> char" where
  "digit_char d = ''0123456789'' ! d"

function show_nat :: "nat \<Rightarrow> string" where
  "show_nat n = (if n < 10 then [digit_char n] else show_nat (n div 10) @ [digit_char (n mod 10)])"
  by pat_completeness auto
termination
  by (relation "measure id") auto

text \<open>The own properties of an array: its elements under their indices, and \<^verbatim>\<open>length\<close>.\<close>

definition array_own :: "jsval list \<Rightarrow> string \<Rightarrow> jsval option" where
  "array_own xs key =
     (if key = ''length'' then Some (JNum (int (length xs)))
      else map_of (zip (map show_nat [0..<length xs]) xs) key)"

text \<open>
  What the chain that starts at the prototype \<open>p\<close> gives for a name.  \<open>array_member\<close>
  tells which names \<^verbatim>\<open>Array.prototype\<close> holds in the run time at hand; it holds functions
  only, and neither \<^verbatim>\<open>__proto__\<close> nor \<^verbatim>\<open>hasOwnProperty\<close>.
\<close>

definition inherited :: "(string \<Rightarrow> bool) \<Rightarrow> proto \<Rightarrow> string \<Rightarrow> jsany" where
  "inherited array_member p key =
     (case p of
        ObjectProto \<Rightarrow> object_prototype_member ObjectPrototype key
      | NullProto \<Rightarrow> Data JUndefined
      | ArrayProto i xs \<Rightarrow>
          (case array_own xs key of
             Some v \<Rightarrow> Data v
           | None \<Rightarrow>
               if key \<noteq> ''__proto__'' \<and> key \<noteq> ''hasOwnProperty'' \<and> array_member key
               then Builtin key
               else object_prototype_member (Data (JArr i xs)) key)
      | ObjProto i ps \<Rightarrow>
          (case map_of ps key of
             Some v \<Rightarrow> Data v
           | None \<Rightarrow> object_prototype_member (Data (JObj i ps)) key))"

text \<open>
  An assignment looks along the chain for a setter before it creates a property.  The one
  setter there is that of \<^verbatim>\<open>__proto__\<close> on \<^verbatim>\<open>Object.prototype\<close>; it is out of reach when
  the chain is empty, and hidden when an object before it has a data property of that
  name.
\<close>

definition setter_in_chain :: "proto \<Rightarrow> string \<Rightarrow> bool" where
  "setter_in_chain p key =
     (key = ''__proto__'' \<and>
      (case p of
         ObjectProto \<Rightarrow> True
       | NullProto \<Rightarrow> False
       | ArrayProto i xs \<Rightarrow> True
       | ObjProto i ps \<Rightarrow> map_of ps ''__proto__'' = None))"

section \<open>The registry and what it does to the outside\<close>

text \<open>
  A pubsub message in decoded form (\<^verbatim>\<open>MessageModel\<close>): data when it comes in, and
  whatever was read from the mirror when it goes out.
\<close>

record 'a envelope =
  sender :: string
  arguments :: "'a list"

text \<open>
  Everything an operation does besides changing the registry, in the order the code
  does it: events emitted on the registry, requests to redis, and calls into the
  caller's functions.  \<open>HSet k f v\<close> is \<^verbatim>\<open>client.hset(k, f, JSON.stringify(v), ...)\<close>;
  \<open>Publish c e\<close> is \<^verbatim>\<open>cli.publish(c, MessageModel.encode(e).toString('base64'))\<close>.
  \<open>OnModified h v\<close> is the call \<^verbatim>\<open>onModified(v)\<close> of the callback given to the \<open>h\<close>-th
  \<^verbatim>\<open>watch\<close>; \<open>Disposed h\<close> marks a call of the function that this \<^verbatim>\<open>watch\<close> returned.
\<close>

datatype effect =
    Emit string "jsany list"
  | HGetAll string
  | HSet string string jsval
  | HDel string string
  | Publish string "jsany envelope"
  | Quit
  | Subscribe string
  | QuitSubscriber
  | Called nat
  | OnModified nat jsany
  | Disposed nat

text \<open>What an operation can throw.\<close>

datatype error = TypeError

text \<open>
  The two closures that \<^verbatim>\<open>watch\<close> registers on the event emitter, named by the watch
  they belong to.
\<close>

datatype listener = ListenerSet nat | ListenerClear nat

text \<open>
  The variables one call of \<^verbatim>\<open>watch\<close> closes over.  The caller's \<^verbatim>\<open>onModified\<close> is foreign
  code: the model records each call and lets the callback call disposers, which is how a
  watch can end while an event is being delivered.
\<close>

record watcher =
  w_key :: string
  w_ended :: bool
  w_onModified :: "jsany \<Rightarrow> nat list"

text \<open>
  The instance.  \<open>store\<close> holds the own properties of \<^verbatim>\<open>this.store\<close> and \<open>store_proto\<close>
  its prototype; \<open>listeners\<close> is the event emitter's list of registrations in the order
  they were added.
\<close>

record registry =
  keyspace :: string
  store :: "string \<rightharpoonup> jsval"
  store_proto :: proto
  subscriber :: bool
  uniqId :: string
  listeners :: "(string \<times> listener) list"
  watchers :: "watcher list"

text \<open>The function handed to \<^verbatim>\<open>pull\<close>: the constructor's, or one of the caller's.\<close>

datatype callback = EmitReady | Foreign nat

definition ChannelConfigSet :: string where
  "ChannelConfigSet = ''ConfigSet''"

definition ChannelConfigClear :: string where
  "ChannelConfigClear = ''ConfigClear''"

definition keyConfig :: "registry \<Rightarrow> string" where
  "keyConfig r = ''config:'' @ keyspace r"

definition keySpaceChannel :: "registry \<Rightarrow> string \<Rightarrow> string" where
  "keySpaceChannel r channel = channel @ '':'' @ keyspace r"

subsection \<open>Reading, writing and asking the mirror\<close>

text \<open>\<^verbatim>\<open>this.store[key]\<close>: the own property, else what the chain gives.\<close>

definition js_get :: "(string \<Rightarrow> bool) \<Rightarrow> registry \<Rightarrow> string \<Rightarrow> jsany" where
  "js_get array_member r key =
     (case store r key of
        Some v \<Rightarrow> Data v
      | None \<Rightarrow> inherited array_member (store_proto r) key)"

text \<open>
  \<^verbatim>\<open>this.store[key] = v\<close>.  An own property is overwritten.  Otherwise, where the setter of
  \<^verbatim>\<open>__proto__\<close> is in reach, it replaces the prototype when \<open>v\<close> is \<^verbatim>\<open>null\<close>, an array or an
  object and ignores every other \<open>v\<close>; no property is created.  In every other case the
  property is created.
\<close>

definition js_assign :: "registry \<Rightarrow> string \<Rightarrow> jsval \<Rightarrow> registry" where
  "js_assign r key v =
     (if store r key = None \<and> setter_in_chain (store_proto r) key then
        (case v of
           JNull \<Rightarrow> r\<lparr>store_proto := NullProto\<rparr>
         | JArr i xs \<Rightarrow> r\<lparr>store_proto := ArrayProto i xs\<rparr>
         | JObj i ps \<Rightarrow> r\<lparr>store_proto := ObjProto i ps\<rparr>
         | _ \<Rightarrow> r)
      else r\<lparr>store := (store r)(key \<mapsto> v)\<rparr>)"

text \<open>
  \<^verbatim>\<open>this.store.hasOwnProperty(key)\<close>.  The method is itself read from the mirror; the call
  throws unless the read gives the built-in function.
\<close>

definition hasOwnProperty :: "(string \<Rightarrow> bool) \<Rightarrow> registry \<Rightarrow> string \<Rightarrow> error + bool" where
  "hasOwnProperty array_member r key =
     (case js_get array_member r ''hasOwnProperty'' of
        Builtin n \<Rightarrow> Inr (store r key \<noteq> None)
      | _ \<Rightarrow> Inl TypeError)"

subsection \<open>Watches and the event emitter\<close>

definition eventNameSet :: string where
  "eventNameSet = ''set''"

definition eventNameClear :: string where
  "eventNameClear = ''clear''"

text \<open>
  The function that \<^verbatim>\<open>watch\<close> returns.  It exists only for a watch that was made; the
  test on \<open>h\<close>, here and in the two listeners, only makes the functions total.
\<close>

definition disposer :: "registry \<Rightarrow> nat \<Rightarrow> registry \<times> effect list" where
  "disposer r h =
     (if h < length (watchers r) then
        (r\<lparr>watchers := (watchers r)[h := (watchers r ! h)\<lparr>w_ended := True\<rparr>],
           listeners := remove1 (eventNameClear, ListenerClear h)
                          (remove1 (eventNameSet, ListenerSet h) (listeners r))\<rparr>,
         [Disposed h])
      else (r, []))"

fun call_disposers :: "registry \<Rightarrow> nat list \<Rightarrow> registry \<times> effect list" where
  "call_disposers r [] = (r, [])"
| "call_disposers r (h # hs) =
     (let (r1, es1) = disposer r h; (r2, es2) = call_disposers r1 hs in (r2, es1 @ es2))"

definition onModified :: "registry \<Rightarrow> nat \<Rightarrow> jsany \<Rightarrow> registry \<times> effect list" where
  "onModified r h v =
     (let (r1, es) = call_disposers r (w_onModified (watchers r ! h) v)
      in (r1, OnModified h v # es))"

definition listenerSet :: "registry \<Rightarrow> nat \<Rightarrow> jsany list \<Rightarrow> registry \<times> effect list" where
  "listenerSet r h args =
     (if h < length (watchers r) then
        (if w_ended (watchers r ! h) then (r, [])
         else if strict_eq_any (arg_nth args 0) (JStr (w_key (watchers r ! h)))
           then onModified r h (arg_nth args 1)
         else (r, []))
      else (r, []))"

definition listenerClear :: "registry \<Rightarrow> nat \<Rightarrow> jsany list \<Rightarrow> registry \<times> effect list" where
  "listenerClear r h args =
     (if h < length (watchers r) then
        (if w_ended (watchers r ! h) then (r, [])
         else if strict_eq_any (arg_nth args 0) (JStr (w_key (watchers r ! h)))
           then onModified r h (Data JUndefined)
         else (r, []))
      else (r, []))"

fun call_listener :: "registry \<Rightarrow> listener \<Rightarrow> jsany list \<Rightarrow> registry \<times> effect list" where
  "call_listener r (ListenerSet h) args = listenerSet r h args"
| "call_listener r (ListenerClear h) args = listenerClear r h args"

text \<open>
  \<^verbatim>\<open>emit\<close> calls the listeners that were registered for the name when the call began, in
  the order of their registration; a listener removed meanwhile is still called.  The
  listeners of the model are those that \<^verbatim>\<open>watch\<close> registers; a listener that the caller
  registers directly sees what \<open>Emit\<close> records.  What the emitter of the platform does
  with an \<open>error\<close> event that nobody listens to is the platform's and is left out.
\<close>

fun dispatch :: "registry \<Rightarrow> listener list \<Rightarrow> jsany list \<Rightarrow> registry \<times> effect list" where
  "dispatch r [] args = (r, [])"
| "dispatch r (l # ls) args =
     (let (r1, es1) = call_listener r l args; (r2, es2) = dispatch r1 ls args
      in (r2, es1 @ es2))"

definition emit :: "registry \<Rightarrow> string \<Rightarrow> jsany list \<Rightarrow> registry \<times> effect list" where
  "emit r name args =
     (let (r1, es) = dispatch r (map snd (filter (\<lambda>nl. fst nl = name) (listeners r))) args
      in (r1, Emit name args # es))"

definition emitError :: "registry \<Rightarrow> jsval \<Rightarrow> registry \<times> effect list" where
  "emitError r err = emit r ''error'' [Data err]"

definition emitUpdated :: "registry \<Rightarrow> registry \<times> effect list" where
  "emitUpdated r = emit r ''updated'' []"

definition emitCleared :: "registry \<Rightarrow> jsval \<Rightarrow> registry \<times> effect list" where
  "emitCleared r key =
     (let (r1, es1) = emit r ''cleared'' [Data key]; (r2, es2) = emitUpdated r1
      in (r2, es1 @ es2))"

definition emitSet :: "registry \<Rightarrow> jsval \<Rightarrow> jsval \<Rightarrow> jsany \<Rightarrow> registry \<times> effect list" where
  "emitSet r key v previousValue =
     (let (r1, es1) = emit r ''set'' [Data key, Data v, previousValue]; (r2, es2) = emitUpdated r1
      in (r2, es1 @ es2))"

definition watch :: "registry \<Rightarrow> string \<Rightarrow> (jsany \<Rightarrow> nat list) \<Rightarrow> registry \<times> nat" where
  "watch r key onMod =
     (let h = length (watchers r) in
      (r\<lparr>watchers := watchers r @ [\<lparr>w_key = key, w_ended = False, w_onModified = onMod\<rparr>],
         listeners := listeners r @ [(eventNameSet, ListenerSet h), (eventNameClear, ListenerClear h)]\<rparr>,
       h))"

subsection \<open>The operations\<close>

text \<open>
  Every request runs on a redis client of its own (\<^verbatim>\<open>getClient\<close>), which is closed
  (\<open>Quit\<close>) in the completion function.  Redis answers later: each operation that asks
  something of redis is a pair of functions, the call and the completion.  Errors that a
  client reports outside a completion are relayed as \<open>error\<close> events by \<^verbatim>\<open>getClient\<close>; they
  belong to no operation and are not part of the model.
\<close>

definition publish :: "registry \<Rightarrow> string \<Rightarrow> jsany list \<Rightarrow> effect" where
  "publish r channel args = Publish channel \<lparr>sender = uniqId r, arguments = args\<rparr>"

text \<open>\<^verbatim>\<open>JSON.parse\<close> is the run time's; \<open>None\<close> is the exception it throws.\<close>

definition applyEncodedKeyValue ::
  "(string \<Rightarrow> jsval option) \<Rightarrow> registry \<Rightarrow> string \<Rightarrow> string \<Rightarrow> registry" where
  "applyEncodedKeyValue JSON_parse r key text =
     (case JSON_parse text of
        None \<Rightarrow> r
      | Some v \<Rightarrow> js_assign r key v)"

text \<open>
  The handler of pubsub messages.  \<open>decode\<close> is the codec
  (\<^verbatim>\<open>MessageModel.decode(Buffer.from(message, 'base64'))\<close>).
\<close>

definition onSubscriberMessage ::
  "(string \<Rightarrow> jsval envelope) \<Rightarrow> (jsval \<Rightarrow> string) \<Rightarrow> (string \<Rightarrow> bool) \<Rightarrow>
     registry \<Rightarrow> string \<Rightarrow> string \<Rightarrow> registry \<times> effect list" where
  "onSubscriberMessage decode conv array_member r channel message =
     (let dMessage = decode message;
          dSender = sender dMessage;
          dArgs = arguments dMessage
      in if dSender = uniqId r then (r, [])
         else
           (let keyName = js_nth dArgs 0 in
            if channel = keySpaceChannel r ChannelConfigSet then
              (let newValue = js_nth dArgs 1;
                   prevRValue = js_nth dArgs 2;
                   prevLValue = js_get array_member r (ToPropertyKey conv keyName)
               in emitSet (js_assign r (ToPropertyKey conv keyName) newValue)
                    keyName newValue prevLValue)
            else if channel = keySpaceChannel r ChannelConfigClear then
              emitCleared (r\<lparr>store := (store r)(ToPropertyKey conv keyName := None)\<rparr>) keyName
            else (r, [])))"

text \<open>
  \<^verbatim>\<open>pull\<close> in two halves: the call, which makes the mirror a fresh \<^verbatim>\<open>{}\<close>, and the function
  it hands to \<^verbatim>\<open>hgetall\<close>, which closes over \<open>onSuccess\<close> and which redis calls later with
  the error or the hash (\<open>None\<close> is \<^verbatim>\<open>null\<close>; the list is the hash in the order of
  \<^verbatim>\<open>Object.keys\<close>).
\<close>

definition pull :: "registry \<Rightarrow> registry \<times> effect list" where
  "pull r = (r\<lparr>store := Map.empty, store_proto := ObjectProto\<rparr>, [HGetAll (keyConfig r)])"

definition call_callback :: "registry \<Rightarrow> callback \<Rightarrow> registry \<times> effect list" where
  "call_callback r cb = (case cb of EmitReady \<Rightarrow> emit r ''ready'' [] | Foreign n \<Rightarrow> (r, [Called n]))"

definition pull_callback ::
  "(string \<Rightarrow> jsval option) \<Rightarrow> registry \<Rightarrow> callback option \<Rightarrow> jsval \<Rightarrow>
     (string \<times> string) list option \<Rightarrow> registry \<times> effect list" where
  "pull_callback JSON_parse r onSuccess err hash =
     (if truthy err then (let (r1, es) = emitError r err in (r1, Quit # es))
      else
        (let r1 = (case hash of
                     None \<Rightarrow> r
                   | Some h \<Rightarrow> fold (\<lambda>(key, text) r'. applyEncodedKeyValue JSON_parse r' key text) h r);
             (r2, es2) = emitUpdated r1;
             (r3, es3) = (case onSuccess of None \<Rightarrow> (r2, []) | Some cb \<Rightarrow> call_callback r2 cb)
         in (r3, Quit # es2 @ es3)))"

text \<open>The constructor: the fields, then \<^verbatim>\<open>this.pull(() => this.emit('ready'))\<close>.\<close>

definition new_registry :: "string \<Rightarrow> string \<Rightarrow> registry \<times> effect list" where
  "new_registry uuid ks =
     pull \<lparr>keyspace = ks, store = Map.empty, store_proto = ObjectProto, subscriber = False,
           uniqId = uuid, listeners = [], watchers = []\<rparr>"


text \<open>
  \<^verbatim>\<open>set\<close> in two halves: the call, and the function it hands to \<^verbatim>\<open>hset\<close>.  The call returns
  with the variables that function closes over, \<open>key\<close>, the new value and \<open>previous\<close>, when
  it has made one.
\<close>

definition set_entry ::
  "(string \<Rightarrow> bool) \<Rightarrow> registry \<Rightarrow> string \<Rightarrow> jsval \<Rightarrow>
     registry \<times> effect list \<times> (string \<times> jsval \<times> jsany) option" where
  "set_entry array_member r key v =
     (let previous = js_get array_member r key in
      if strict_eq_any previous v then (r, [], None)
      else (js_assign r key v, [HSet (keyConfig r) key v], Some (key, v, previous)))"

definition set_callback ::
  "registry \<Rightarrow> string \<Rightarrow> jsval \<Rightarrow> jsany \<Rightarrow> jsval \<Rightarrow> registry \<times> effect list" where
  "set_callback r key v previous err =
     (let p = publish r (keySpaceChannel r ChannelConfigSet) [Data (JStr key), Data v, previous] in
      if truthy err then (let (r1, es) = emitError r err in (r1, p # Quit # es))
      else (let (r1, es) = emitSet r (JStr key) v previous in (r1, p # Quit # es)))"


text \<open>\<^verbatim>\<open>clear\<close> in two halves; the call throws where \<^verbatim>\<open>hasOwnProperty\<close> does.\<close>

definition clear ::
  "(string \<Rightarrow> bool) \<Rightarrow> registry \<Rightarrow> string \<Rightarrow> error + registry \<times> effect list" where
  "clear array_member r key =
     (case hasOwnProperty array_member r key of
        Inl e \<Rightarrow> Inl e
      | Inr has \<Rightarrow>
          Inr ((if has then r\<lparr>store := (store r)(key := None)\<rparr> else r),
               [HDel (keyConfig r) key]))"

definition clear_callback :: "registry \<Rightarrow> string \<Rightarrow> jsval \<Rightarrow> registry \<times> effect list" where
  "clear_callback r key err =
     (let p = publish r (keySpaceChannel r ChannelConfigClear) [Data (JStr key)] in
      if truthy err then (let (r1, es) = emitError r err in (r1, p # Quit # es))
      else (let (r1, es) = emitCleared r (JStr key) in (r1, p # Quit # es)))"

definition startMonitor :: "registry \<Rightarrow> registry \<times> effect list" where
  "startMonitor r =
     (if subscriber r then (r, [])
      else (r\<lparr>subscriber := True\<rparr>,
            [Subscribe (keySpaceChannel r ChannelConfigSet),
             Subscribe (keySpaceChannel r ChannelConfigClear)]))"

definition stopMonitor :: "registry \<Rightarrow> registry \<times> effect list" where
  "stopMonitor r =
     (if \<not> subscriber r then (r, [])
      else (r\<lparr>subscriber := False\<rparr>, [QuitSubscriber]))"

subsection \<open>The life of an instance\<close>

text \<open>
  What can happen to an instance, one event at a time: a call of a public method, redis
  calling back into one of the three completion functions (with the variables the
  function closed over and the error redis reports), a pubsub message arriving, and the
  caller disposing of a watch.  Completions may arrive in any order and with any
  arguments; an instance as the program runs it sees a subset of these sequences.  A
  call that throws has done nothing, and the caller goes on.
\<close>

datatype op =
    OpPull
  | OpPullCallback "callback option" jsval "(string \<times> string) list option"
  | OpWatch string "jsany \<Rightarrow> nat list"
  | OpDispose nat
  | OpSet string jsval
  | OpSetCallback string jsval jsany jsval
  | OpClear string
  | OpClearCallback string jsval
  | OpMessage string string
  | OpStartMonitor
  | OpStopMonitor

fun step ::
  "(string \<Rightarrow> jsval option) \<Rightarrow> (string \<Rightarrow> jsval envelope) \<Rightarrow> (jsval \<Rightarrow> string) \<Rightarrow>
     (string \<Rightarrow> bool) \<Rightarrow> registry \<Rightarrow> op \<Rightarrow> registry \<times> effect list" where
  "step JSON_parse decode conv am r OpPull = pull r"
| "step JSON_parse decode conv am r (OpPullCallback onSuccess err hash) =
     pull_callback JSON_parse r onSuccess err hash"
| "step JSON_parse decode conv am r (OpWatch key onMod) = (fst (watch r key onMod), [])"
| "step JSON_parse decode conv am r (OpDispose h) = disposer r h"
| "step JSON_parse decode conv am r (OpSet key v) =
     (fst (set_entry am r key v), fst (snd (set_entry am r key v)))"
| "step JSON_parse decode conv am r (OpSetCallback key v previous err) =
     set_callback r key v previous err"
| "step JSON_parse decode conv am r (OpClear key) =
     (case clear am r key of Inl e \<Rightarrow> (r, []) | Inr res \<Rightarrow> res)"
| "step JSON_parse decode conv am r (OpClearCallback key err) = clear_callback r key err"
| "step JSON_parse decode conv am r (OpMessage channel message) =
     onSubscriberMessage decode conv am r channel message"
| "step JSON_parse decode conv am r OpStartMonitor = startMonitor r"
| "step JSON_parse decode conv am r OpStopMonitor = stopMonitor r"

fun run ::
  "(string \<Rightarrow> jsval option) \<Rightarrow> (string \<Rightarrow> jsval envelope) \<Rightarrow> (jsval \<Rightarrow> string) \<Rightarrow>
     (string \<Rightarrow> bool) \<Rightarrow> registry \<Rightarrow> op list \<Rightarrow> registry \<times> effect list" where
  "run JSON_parse decode conv am r [] = (r, [])"
| "run JSON_parse decode conv am r (x # xs) =
     (let (r1, es1) = step JSON_parse decode conv am r x;
          (r2, es2) = run JSON_parse decode conv am r1 xs
      in (r2, es1 @ es2))"

section \<open>Vocabulary of the properties\<close>

text \<open>
  The effects that are the caller's own doing or a call into the caller's code, as
  opposed to what the registry emits, publishes and asks of redis.
\<close>

fun is_foreign :: "effect \<Rightarrow> bool" where
  "is_foreign (OnModified h v) = True"
| "is_foreign (Disposed h) = True"
| "is_foreign e = False"

definition registry_effects :: "effect list \<Rightarrow> effect list" where
  "registry_effects es = filter (\<lambda>e. \<not> is_foreign e) es"

definition same_fields :: "registry \<Rightarrow> registry \<Rightarrow> bool" where
  "same_fields r r' =
     (store r' = store r \<and> store_proto r' = store_proto r \<and> keyspace r' = keyspace r \<and>
      uniqId r' = uniqId r \<and> subscriber r' = subscriber r)"


text \<open>The \<^verbatim>\<open>ended\<close> flag of watch \<open>h\<close>, once that watch exists.\<close>

definition ended :: "registry \<Rightarrow> nat \<Rightarrow> bool" where
  "ended r h = (h < length (watchers r) \<and> w_ended (watchers r ! h))"

text \<open>
  A trace in which the callback of watch \<open>h\<close> is never called after the disposer of \<open>h\<close>;
  \<open>d\<close> tells whether the disposer was called before the trace began.
\<close>

fun quiet_after :: "nat \<Rightarrow> bool \<Rightarrow> effect list \<Rightarrow> bool" where
  "quiet_after h d [] = True"
| "quiet_after h d (OnModified k v # es) = (if k = h \<and> d then False else quiet_after h d es)"
| "quiet_after h d (Disposed k # es) = quiet_after h (d \<or> k = h) es"
| "quiet_after h d (e # es) = quiet_after h d es"

definition tracks :: "nat \<Rightarrow> registry \<Rightarrow> registry \<times> effect list \<Rightarrow> bool" where
  "tracks h r res =
     (quiet_after h (ended r h) (snd res) \<and>
      ended (fst res) h = (ended r h \<or> Disposed h \<in> set (snd res)))"

text \<open>
  Value equality in the words of the specification: the same JSON content, whichever
  heap cells hold it.
\<close>

fun content :: "jsval \<Rightarrow> jsval" where
  "content (JArr i xs) = JArr 0 (map content xs)"
| "content (JObj i ps) = JObj 0 (map (\<lambda>p. (fst p, content (snd p))) ps)"
| "content v = v"

definition value_eq :: "jsval \<Rightarrow> jsval \<Rightarrow> bool" where
  "value_eq a b = (content a = content b)"

subsection \<open>Concrete instances\<close>

text \<open>An instance of namespace \<open>global\<close> that mirrors \<open>k = 1\<close> and \<open>b = [1,2]\<close>.\<close>

definition example_registry :: registry where
  "example_registry =
     \<lparr>keyspace = ''global'',
      store = [''k'' \<mapsto> JNum 1, ''b'' \<mapsto> JArr 1 [JNum 1, JNum 2]],
      store_proto = ObjectProto,
      subscriber = True, uniqId = ''me'', listeners = [], watchers = []\<rparr>"

text \<open>The same instance with one watch on \<open>k\<close> whose callback does nothing else.\<close>

definition watched_registry :: registry where
  "watched_registry = fst (watch example_registry ''k'' (\<lambda>v. []))"

text \<open>
  Two watches on \<open>k\<close>; the callback of the first disposes of the second when it is told
  that \<open>k\<close> is \<open>3\<close>, so the second ends while that notification is on its way to it.
\<close>

definition racing_registry :: registry where
  "racing_registry =
     fst (watch (fst (watch example_registry ''k'' (\<lambda>v. if v = Data (JNum 3) then [1] else [])))
            ''k'' (\<lambda>v. []))"



text \<open>A codec that reads every message as the given envelope.\<close>

definition decode_as :: "jsval envelope \<Rightarrow> string \<Rightarrow> jsval envelope" where
  "decode_as e message = e"

text \<open>\<^verbatim>\<open>JSON.parse\<close> on the three texts of the bootstrap example.\<close>

definition parse_example :: "string \<Rightarrow> jsval option" where
  "parse_example text =
     (if text = ''1'' then Some (JNum 1)
      else if text = ''[1,2]'' then Some (JArr 7 [JNum 1, JNum 2])
      else None)"

text \<open>A conversion of keys that are not strings, and a run time whose arrays have \<open>push\<close>.\<close>

definition conv_example :: "jsval \<Rightarrow> string" where
  "conv_example v = ''undefined''"

definition array_member_example :: "string \<Rightarrow> bool" where
  "array_member_example key = (key = ''push'')"

section \<open>What delivering an event can change\<close>

text \<open>
  Delivering an event reaches the caller's callbacks and, through them, disposers.  None
  of that touches the mirror, its prototype, the namespace, the identity or the
  subscriber, and none of it is an effect of the registry's own.
\<close>

lemma registry_effects_simps:
  "registry_effects [] = []"
  "registry_effects (e # es) = (if is_foreign e then registry_effects es else e # registry_effects es)"
  "registry_effects (es @ fs) = registry_effects es @ registry_effects fs"
  by (simp_all add: registry_effects_def)

lemma same_fields_refl: "same_fields a a"
  by (simp add: same_fields_def)

lemma same_fields_trans: "same_fields a b \<Longrightarrow> same_fields b c \<Longrightarrow> same_fields a c"
  by (simp add: same_fields_def)

lemma disposer_frame:
  "same_fields r (fst (disposer r h)) \<and> registry_effects (snd (disposer r h)) = []"
  by (simp add: disposer_def same_fields_def registry_effects_simps)

lemma call_disposers_frame:
  "same_fields r (fst (call_disposers r hs)) \<and> registry_effects (snd (call_disposers r hs)) = []"
proof (induction hs arbitrary: r)
  case Nil
  show ?case by (simp add: same_fields_refl registry_effects_simps)
next
  case (Cons h hs)
  obtain r1 es1 where d: "disposer r h = (r1, es1)" by (cases "disposer r h")
  obtain r2 es2 where c: "call_disposers r1 hs = (r2, es2)" by (cases "call_disposers r1 hs")
  from disposer_frame[of r h] d have a: "same_fields r r1" "registry_effects es1 = []" by simp_all
  from Cons.IH[of r1] c have b: "same_fields r1 r2" "registry_effects es2 = []" by simp_all
  show ?case using a b d c by (simp add: registry_effects_simps same_fields_trans[OF a(1) b(1)])
qed

lemma onModified_frame:
  "same_fields r (fst (onModified r h v)) \<and> registry_effects (snd (onModified r h v)) = []"
  using call_disposers_frame[of r "w_onModified (watchers r ! h) v"]
  by (simp add: onModified_def registry_effects_simps case_prod_beta)

lemma call_listener_frame:
  "same_fields r (fst (call_listener r l args)) \<and>
   registry_effects (snd (call_listener r l args)) = []"
  by (cases l)
     (simp_all add: listenerSet_def listenerClear_def onModified_frame same_fields_refl
        registry_effects_simps)

lemma dispatch_frame:
  "same_fields r (fst (dispatch r ls args)) \<and> registry_effects (snd (dispatch r ls args)) = []"
proof (induction ls arbitrary: r)
  case Nil
  show ?case by (simp add: same_fields_refl registry_effects_simps)
next
  case (Cons l ls)
  obtain r1 es1 where d: "call_listener r l args = (r1, es1)" by (cases "call_listener r l args")
  obtain r2 es2 where c: "dispatch r1 ls args = (r2, es2)" by (cases "dispatch r1 ls args")
  from call_listener_frame[of r l args] d
  have a: "same_fields r r1" "registry_effects es1 = []" by simp_all
  from Cons.IH[of r1] c have b: "same_fields r1 r2" "registry_effects es2 = []" by simp_all
  show ?case using a b d c by (simp add: registry_effects_simps same_fields_trans[OF a(1) b(1)])
qed

lemma emit_frame:
  "same_fields r (fst (emit r name args)) \<and>
   registry_effects (snd (emit r name args)) = [Emit name args]"
  using dispatch_frame[of r "map snd (filter (\<lambda>nl. fst nl = name) (listeners r))" args]
  by (simp add: emit_def registry_effects_simps case_prod_beta)

lemma emitUpdated_frame:
  "same_fields r (fst (emitUpdated r)) \<and>
   registry_effects (snd (emitUpdated r)) = [Emit ''updated'' []]"
  by (simp add: emitUpdated_def emit_frame)

lemma emitError_frame:
  "same_fields r (fst (emitError r err)) \<and>
   registry_effects (snd (emitError r err)) = [Emit ''error'' [Data err]]"
  by (simp add: emitError_def emit_frame)



lemma call_callback_frame:
  "same_fields r (fst (call_callback r cb)) \<and>
   registry_effects (snd (call_callback r cb)) =
     (case cb of EmitReady \<Rightarrow> [Emit ''ready'' []] | Foreign n \<Rightarrow> [Called n])"
  by (cases cb) (simp_all add: call_callback_def emit_frame same_fields_refl registry_effects_simps)


section \<open>Properties of the mirror\<close>



lemma js_assign_ordinary:
  "key \<noteq> ''__proto__'' \<Longrightarrow> js_assign r key v = r\<lparr>store := (store r)(key \<mapsto> v)\<rparr>"
  by (simp add: js_assign_def setter_in_chain_def)




section \<open>Messages from the pubsub channels\<close>

text \<open>
  C2.  A message whose decoded sender is the instance's own identity is dropped, on the
  set channel, on the clear channel and on any other: the instance is exactly as it was
  (the mirror included) and nothing is emitted, asked of redis or called.
\<close>

theorem self_echo_discarded:
  "sender (decode message) = uniqId r \<Longrightarrow>
     onSubscriberMessage decode conv am r channel message = (r, [])"
  by (simp add: onSubscriberMessage_def)

theorem self_echo_discarded_witness:
  "sender (decode_as \<lparr>sender = ''me'', arguments = [JStr ''k'', JNum 2, JNum 1]\<rparr> ''m'')
     = uniqId watched_registry \<and>
   keySpaceChannel watched_registry ChannelConfigSet = ''ConfigSet:global'' \<and>
   keySpaceChannel watched_registry ChannelConfigClear = ''ConfigClear:global'' \<and>
   onSubscriberMessage (decode_as \<lparr>sender = ''me'', arguments = [JStr ''k'', JNum 2, JNum 1]\<rparr>)
     conv_example array_member_example
     watched_registry ''ConfigSet:global'' ''m'' = (watched_registry, []) \<and>
   onSubscriberMessage (decode_as \<lparr>sender = ''me'', arguments = [JStr ''k'', JNum 2, JNum 1]\<rparr>)
     conv_example array_member_example
     watched_registry ''ConfigClear:global'' ''m'' = (watched_registry, [])"
proof -
  let ?d = "decode_as \<lparr>sender = ''me'', arguments = [JStr ''k'', JNum 2, JNum 1]\<rparr>"
  have s: "sender (?d ''m'') = uniqId watched_registry"
    by (simp add: decode_as_def watched_registry_def watch_def example_registry_def)
  have c: "keySpaceChannel watched_registry ChannelConfigSet = ''ConfigSet:global''"
    "keySpaceChannel watched_registry ChannelConfigClear = ''ConfigClear:global''"
    by (simp_all add: keySpaceChannel_def ChannelConfigSet_def ChannelConfigClear_def
          watched_registry_def watch_def example_registry_def)
  show ?thesis
    using s c
      self_echo_discarded[where decode = "?d" and message = "''m''" and r = watched_registry
        and channel = "''ConfigSet:global''" and conv = conv_example
        and am = array_member_example]
      self_echo_discarded[where decode = "?d" and message = "''m''" and r = watched_registry
        and channel = "''ConfigClear:global''" and conv = conv_example
        and am = array_member_example]
    by simp
qed




section \<open>Reading the mirror\<close>




section \<open>Writing and clearing\<close>






section \<open>Bootstrap\<close>

lemma applyEncodedKeyValue_store:
  "key \<noteq> ''__proto__'' \<Longrightarrow>
   store (applyEncodedKeyValue P r key t) =
     (case P t of None \<Rightarrow> store r | Some v \<Rightarrow> (store r)(key \<mapsto> v))"
  by (simp add: applyEncodedKeyValue_def js_assign_ordinary split: option.splits)

lemma applyEncodedKeyValue_proto:
  "key \<noteq> ''__proto__'' \<Longrightarrow> store_proto (applyEncodedKeyValue P r key t) = store_proto r"
  by (simp add: applyEncodedKeyValue_def js_assign_ordinary split: option.splits)

lemma applyEncodedKeyValue_setter:
  "store r ''__proto__'' = None \<Longrightarrow> setter_in_chain (store_proto r) ''__proto__'' \<Longrightarrow>
   store (applyEncodedKeyValue P r ''__proto__'' t) = store r"
  by (simp add: applyEncodedKeyValue_def js_assign_def split: option.splits jsval.splits)

text \<open>
  Folding a hash into the mirror.  The field \<open>__proto__\<close>, if the hash has one, goes to
  the setter of the prototype and leaves the own properties alone.
\<close>

lemma applyEncodedKeyValue_fold_store:
  "distinct (map fst h) \<Longrightarrow>
   ''__proto__'' \<notin> fst ` set h \<or>
     (store r ''__proto__'' = None \<and> setter_in_chain (store_proto r) ''__proto__'') \<Longrightarrow>
   store (fold (\<lambda>(key, text) r'. applyEncodedKeyValue P r' key text) h r) =
     (\<lambda>k. if k = ''__proto__'' then store r k
          else case map_of h k of
                 None \<Rightarrow> store r k
               | Some t \<Rightarrow> (case P t of None \<Rightarrow> store r k | Some v \<Rightarrow> Some v))"
proof (induction h arbitrary: r)
  case Nil
  show ?case by (simp add: fun_eq_iff)
next
  case (Cons kt h)
  obtain k0 t0 where kt: "kt = (k0, t0)" by (cases kt)
  from Cons.prems(1) kt have d: "distinct (map fst h)" and n: "map_of h k0 = None"
    and m: "k0 \<notin> fst ` set h"
    by (auto simp: map_of_eq_None_iff)
  let ?f = "\<lambda>(key, text) r'. applyEncodedKeyValue P r' key text"
  let ?r1 = "applyEncodedKeyValue P r k0 t0"
  have step: "store (fold ?f (kt # h) r) = store (fold ?f h ?r1)"
    by (simp add: kt)
  show ?case
  proof (cases "k0 = ''__proto__''")
    case True
    with Cons.prems(2) kt
    have pre: "store r ''__proto__'' = None" "setter_in_chain (store_proto r) ''__proto__''"
      by auto
    have s1: "store ?r1 = store r"
      using applyEncodedKeyValue_setter[OF pre] True by simp
    from m True have inv: "''__proto__'' \<notin> fst ` set h" by simp
    have "store (fold ?f h ?r1) =
      (\<lambda>k. if k = ''__proto__'' then store ?r1 k
          else case map_of h k of
                 None \<Rightarrow> store ?r1 k
               | Some t \<Rightarrow> (case P t of None \<Rightarrow> store ?r1 k | Some v \<Rightarrow> Some v))"
      by (rule Cons.IH[OF d]) (simp add: inv)
    then show ?thesis
      unfolding step s1 using True by (auto simp: kt fun_eq_iff split: option.splits)
  next
    case False
    have s1: "store ?r1 = (case P t0 of None \<Rightarrow> store r | Some v \<Rightarrow> (store r)(k0 \<mapsto> v))"
      and p1: "store_proto ?r1 = store_proto r"
      using False by (simp_all add: applyEncodedKeyValue_store applyEncodedKeyValue_proto)
    have inv: "''__proto__'' \<notin> fst ` set h \<or>
     (store ?r1 ''__proto__'' = None \<and> setter_in_chain (store_proto ?r1) ''__proto__'')"
      using Cons.prems(2) False kt by (auto simp: s1 p1 split: option.splits)
    have "store (fold ?f h ?r1) =
      (\<lambda>k. if k = ''__proto__'' then store ?r1 k
          else case map_of h k of
                 None \<Rightarrow> store ?r1 k
               | Some t \<Rightarrow> (case P t of None \<Rightarrow> store ?r1 k | Some v \<Rightarrow> Some v))"
      by (rule Cons.IH[OF d inv])
    then show ?thesis
      unfolding step using False n
      by (auto simp: kt s1 fun_eq_iff split: option.splits)
  qed
qed

text \<open>
  C5.  After \<open>pull\<close> and the successful completion of its fetch, the mirror is the hash
  with every text replaced by what \<^verbatim>\<open>JSON.parse\<close> makes of it, and a field whose text
  does not parse is not in the mirror; nothing but \<open>updated\<close> (and the completion
  callback) is reported, so no error.  (A field called \<open>__proto__\<close> is not in the mirror
  either way.)  With \<^verbatim>\<open>JSON.parse\<close> reading \<open>1\<close> as the number and
  \<open>[1,2]\<close> as the array and rejecting \<open>not-json\<close>, the hash
  \<open>{a: "1", b: "[1,2]", c: "not-json"}\<close> leaves exactly \<open>a = 1\<close> and \<open>b = [1,2]\<close>.
\<close>

theorem pull_keeps_what_parses:
  "(JSON_parse ''1'' = Some (JNum 1) \<and> JSON_parse ''[1,2]'' = Some (JArr i [JNum 1, JNum 2]) \<and>
    JSON_parse ''not-json'' = None \<longrightarrow>
      store (fst (pull_callback JSON_parse (fst (pull r)) cb JNull
        (Some [(''a'', ''1''), (''b'', ''[1,2]''), (''c'', ''not-json'')]))) =
        [''a'' \<mapsto> JNum 1, ''b'' \<mapsto> JArr i [JNum 1, JNum 2]]) \<and>
   (\<not> truthy err \<and> distinct (map fst hash) \<longrightarrow>
      store (fst (pull_callback JSON_parse (fst (pull r)) cb err (Some hash))) =
        (\<lambda>k. if k = ''__proto__'' then None
             else case map_of hash k of None \<Rightarrow> None | Some t \<Rightarrow> JSON_parse t) \<and>
      (\<forall>k t. (k, t) \<in> set hash \<and> JSON_parse t = None \<longrightarrow>
         store (fst (pull_callback JSON_parse (fst (pull r)) cb err (Some hash))) k = None) \<and>
      registry_effects (snd (pull_callback JSON_parse (fst (pull r)) cb err (Some hash))) =
        Quit # Emit ''updated'' [] #
        (case cb of None \<Rightarrow> [] | Some EmitReady \<Rightarrow> [Emit ''ready'' []]
         | Some (Foreign n) \<Rightarrow> [Called n]))"
proof -
  have gen: "store (fst (pull_callback JSON_parse (fst (pull r)) cb e (Some h))) =
        (\<lambda>k. if k = ''__proto__'' then None
             else case map_of h k of None \<Rightarrow> None | Some t \<Rightarrow> JSON_parse t) \<and>
      registry_effects (snd (pull_callback JSON_parse (fst (pull r)) cb e (Some h))) =
        Quit # Emit ''updated'' [] #
        (case cb of None \<Rightarrow> [] | Some EmitReady \<Rightarrow> [Emit ''ready'' []]
         | Some (Foreign n) \<Rightarrow> [Called n])"
    if e: "\<not> truthy e" and h: "distinct (map fst h)" for e h
  proof -
    let ?r1 = "fold (\<lambda>(key, text) r'. applyEncodedKeyValue JSON_parse r' key text) h (fst (pull r))"
    have pre: "''__proto__'' \<notin> fst ` set h \<or>
       (store (fst (pull r)) ''__proto__'' = None \<and>
        setter_in_chain (store_proto (fst (pull r))) ''__proto__'')"
      by (simp add: pull_def setter_in_chain_def)
    have s1: "store ?r1 = (\<lambda>k. if k = ''__proto__'' then None
             else case map_of h k of None \<Rightarrow> None | Some t \<Rightarrow> JSON_parse t)"
      unfolding applyEncodedKeyValue_fold_store[OF h pre]
      by (auto simp: pull_def fun_eq_iff split: option.splits)
    have u: "same_fields ?r1 (fst (emitUpdated ?r1))"
      "registry_effects (snd (emitUpdated ?r1)) = [Emit ''updated'' []]"
      using emitUpdated_frame[of ?r1] by simp_all
    show ?thesis
    proof (cases cb)
      case None
      then show ?thesis using e s1 u
        by (simp add: pull_callback_def Let_def case_prod_beta registry_effects_simps same_fields_def)
    next
      case (Some c)
      have f: "same_fields (fst (emitUpdated ?r1)) (fst (call_callback (fst (emitUpdated ?r1)) c))"
        "registry_effects (snd (call_callback (fst (emitUpdated ?r1)) c)) =
           (case c of EmitReady \<Rightarrow> [Emit ''ready'' []] | Foreign n \<Rightarrow> [Called n])"
        using call_callback_frame[of "fst (emitUpdated ?r1)" c] by simp_all
      show ?thesis using Some e s1 u f
        by (simp add: pull_callback_def Let_def case_prod_beta registry_effects_simps same_fields_def)
    qed
  qed
  have dropped: "store (fst (pull_callback JSON_parse (fst (pull r)) cb e (Some h))) k = None"
    if e: "\<not> truthy e" and h: "distinct (map fst h)" and kt: "(k, t) \<in> set h"
      and p: "JSON_parse t = None" for e h k t
  proof -
    from h kt have "map_of h k = Some t" by simp
    then show ?thesis using gen[OF e h] p by simp
  qed
  have ex: "store (fst (pull_callback JSON_parse (fst (pull r)) cb JNull
        (Some [(''a'', ''1''), (''b'', ''[1,2]''), (''c'', ''not-json'')]))) =
        [''a'' \<mapsto> JNum 1, ''b'' \<mapsto> JArr i [JNum 1, JNum 2]]"
    if p: "JSON_parse ''1'' = Some (JNum 1)" "JSON_parse ''[1,2]'' = Some (JArr i [JNum 1, JNum 2])"
      "JSON_parse ''not-json'' = None"
  proof -
    have "distinct (map fst [(''a'', ''1''), (''b'', ''[1,2]''), (''c'', ''not-json'')])"
      by simp
    from gen[OF _ this, of JNull] show ?thesis
      using p by (auto simp: fun_eq_iff)
  qed
  show ?thesis using gen dropped ex by blast
qed

theorem pull_keeps_what_parses_witness:
  "parse_example ''1'' = Some (JNum 1) \<and>
   parse_example ''[1,2]'' = Some (JArr 7 [JNum 1, JNum 2]) \<and>
   parse_example ''not-json'' = None \<and>
   \<not> truthy JNull \<and>
   distinct (map fst [(''a'', ''1''), (''b'', ''[1,2]''), (''c'', ''not-json'')]) \<and>
   store (fst (pull_callback parse_example (fst (pull example_registry)) (Some EmitReady) JNull
        (Some [(''a'', ''1''), (''b'', ''[1,2]''), (''c'', ''not-json'')]))) =
     [''a'' \<mapsto> JNum 1, ''b'' \<mapsto> JArr 7 [JNum 1, JNum 2]] \<and>
   store (fst (pull_callback parse_example (fst (pull example_registry)) (Some EmitReady) JNull
        (Some [(''a'', ''1''), (''b'', ''[1,2]''), (''c'', ''not-json'')]))) ''c'' = None \<and>
   store (fst (pull_callback parse_example (fst (pull example_registry)) (Some EmitReady) JNull
        (Some [(''a'', ''1''), (''b'', ''[1,2]''), (''c'', ''not-json'')]))) ''k'' = None \<and>
   registry_effects (snd (pull_callback parse_example (fst (pull example_registry))
        (Some EmitReady) JNull
        (Some [(''a'', ''1''), (''b'', ''[1,2]''), (''c'', ''not-json'')]))) =
     [Quit, Emit ''updated'' [], Emit ''ready'' []]"
proof -
  have p: "parse_example ''1'' = Some (JNum 1)"
    "parse_example ''[1,2]'' = Some (JArr 7 [JNum 1, JNum 2])"
    "parse_example ''not-json'' = None"
    by (simp_all add: parse_example_def)
  note t = pull_keeps_what_parses[where JSON_parse = parse_example and i = 7
        and r = example_registry and cb = "Some EmitReady" and err = JNull
        and hash = "[(''a'', ''1''), (''b'', ''[1,2]''), (''c'', ''not-json'')]"]
  have a: "store (fst (pull_callback parse_example (fst (pull example_registry))
        (Some EmitReady) JNull
        (Some [(''a'', ''1''), (''b'', ''[1,2]''), (''c'', ''not-json'')]))) =
     [''a'' \<mapsto> JNum 1, ''b'' \<mapsto> JArr 7 [JNum 1, JNum 2]]"
    using t p by blast
  have b: "registry_effects (snd (pull_callback parse_example (fst (pull example_registry))
        (Some EmitReady) JNull
        (Some [(''a'', ''1''), (''b'', ''[1,2]''), (''c'', ''not-json'')]))) =
     [Quit, Emit ''updated'' [], Emit ''ready'' []]"
    using t by simp
  show ?thesis using p a b by simp
qed

text \<open>
  C6.  \<open>pull\<close> empties the mirror at once.  When its fetch fails, \<open>error\<close> is emitted with
  the error and nothing else happens: the mirror stays empty, \<open>updated\<close> is not emitted
  and the completion callback is not called.  When the fetch succeeds, \<open>updated\<close> is
  emitted and then the completion callback, if one was given, is called.
\<close>

theorem pull_failure_and_success:
  "store (fst (pull r)) = Map.empty \<and>
   (truthy err \<longrightarrow>
      store (fst (pull_callback JSON_parse (fst (pull r)) cb err hash)) = Map.empty \<and>
      registry_effects (snd (pull_callback JSON_parse (fst (pull r)) cb err hash)) =
        [Quit, Emit ''error'' [Data err]]) \<and>
   (\<not> truthy err \<longrightarrow>
      registry_effects (snd (pull_callback JSON_parse r' cb err hash)) =
        Quit # Emit ''updated'' [] #
        (case cb of None \<Rightarrow> [] | Some EmitReady \<Rightarrow> [Emit ''ready'' []]
         | Some (Foreign n) \<Rightarrow> [Called n]))"
proof -
  have a: "store (fst (pull r)) = Map.empty" by (simp add: pull_def)
  have b: "store (fst (pull_callback JSON_parse (fst (pull r)) cb err hash)) = Map.empty \<and>
      registry_effects (snd (pull_callback JSON_parse (fst (pull r)) cb err hash)) =
        [Quit, Emit ''error'' [Data err]]" if "truthy err"
    using that a emitError_frame[of "fst (pull r)" err]
    by (simp add: pull_callback_def Let_def case_prod_beta registry_effects_simps same_fields_def)
  have c: "registry_effects (snd (pull_callback JSON_parse r' cb err hash)) =
        Quit # Emit ''updated'' [] #
        (case cb of None \<Rightarrow> [] | Some EmitReady \<Rightarrow> [Emit ''ready'' []]
         | Some (Foreign n) \<Rightarrow> [Called n])" if e: "\<not> truthy err"
  proof -
    let ?r1 = "case hash of None \<Rightarrow> r'
       | Some h \<Rightarrow> fold (\<lambda>(key, text) r'. applyEncodedKeyValue JSON_parse r' key text) h r'"
    have u: "registry_effects (snd (emitUpdated ?r1)) = [Emit ''updated'' []]"
      using emitUpdated_frame[of ?r1] by simp
    show ?thesis
    proof (cases cb)
      case None
      then show ?thesis using e u
        by (simp add: pull_callback_def Let_def case_prod_beta registry_effects_simps)
    next
      case (Some c)
      have f: "registry_effects (snd (call_callback (fst (emitUpdated ?r1)) c)) =
           (case c of EmitReady \<Rightarrow> [Emit ''ready'' []] | Foreign n \<Rightarrow> [Called n])"
        using call_callback_frame[of "fst (emitUpdated ?r1)" c] by simp
      show ?thesis using Some e u f
        by (simp add: pull_callback_def Let_def case_prod_beta registry_effects_simps)
    qed
  qed
  show ?thesis using a b c by blast
qed

theorem pull_failure_and_success_witness:
  "truthy (JObj 5 [(''message'', JStr ''connection lost'')]) \<and>
   store (fst (pull_callback parse_example (fst (pull example_registry)) (Some (Foreign 3))
      (JObj 5 [(''message'', JStr ''connection lost'')]) None)) = Map.empty \<and>
   registry_effects (snd (pull_callback parse_example (fst (pull example_registry))
      (Some (Foreign 3)) (JObj 5 [(''message'', JStr ''connection lost'')]) None)) =
     [Quit, Emit ''error'' [Data (JObj 5 [(''message'', JStr ''connection lost'')])]] \<and>
   \<not> truthy JNull \<and>
   registry_effects (snd (pull_callback parse_example (fst (pull example_registry))
      (Some (Foreign 3)) JNull (Some [(''a'', ''1'')]))) =
     [Quit, Emit ''updated'' [], Called 3] \<and>
   registry_effects (snd (pull_callback parse_example (fst (pull example_registry))
      None JNull (Some [(''a'', ''1'')]))) =
     [Quit, Emit ''updated'' []]"
  using
    pull_failure_and_success[where r = example_registry and JSON_parse = parse_example
      and cb = "Some (Foreign 3)" and err = "JObj 5 [(''message'', JStr ''connection lost'')]"
      and hash = None]
    pull_failure_and_success[where r' = "fst (pull example_registry)" and JSON_parse = parse_example
      and cb = "Some (Foreign 3)" and err = JNull and hash = "Some [(''a'', ''1'')]"]
    pull_failure_and_success[where r' = "fst (pull example_registry)" and JSON_parse = parse_example
      and cb = None and err = JNull and hash = "Some [(''a'', ''1'')]"]
  by simp

section \<open>When a write is a no-op\<close>

text \<open>
  C4, as the specification words it, fails.  The mirror holds the array \<open>[1,2]\<close> for \<open>b\<close>,
  the caller sets \<open>b\<close> to another array \<open>[1,2]\<close>, equal by value, and the write goes through
  (the mirror is overwritten and an \<open>hset\<close> is sent); a further array \<open>[1,2]\<close> goes through
  again.  And two calls \<open>set("__proto__", 5)\<close> in a row send two \<open>hset\<close>s: the first leaves
  nothing in the mirror that the second could find unchanged.
\<close>

theorem set_value_equal_counterexample:
  "value_eq (JArr 2 [JNum 1, JNum 2]) (JArr 1 [JNum 1, JNum 2]) \<and>
   js_get array_member_example example_registry ''b'' = Data (JArr 1 [JNum 1, JNum 2]) \<and>
   set_entry array_member_example example_registry ''b'' (JArr 2 [JNum 1, JNum 2]) =
     (example_registry\<lparr>store := (store example_registry)(''b'' \<mapsto> JArr 2 [JNum 1, JNum 2])\<rparr>,
      [HSet ''config:global'' ''b'' (JArr 2 [JNum 1, JNum 2])],
      Some (''b'', JArr 2 [JNum 1, JNum 2], Data (JArr 1 [JNum 1, JNum 2]))) \<and>
   value_eq (JArr 3 [JNum 1, JNum 2]) (JArr 2 [JNum 1, JNum 2]) \<and>
   fst (snd (set_entry array_member_example
          (fst (set_entry array_member_example example_registry ''b'' (JArr 2 [JNum 1, JNum 2])))
          ''b'' (JArr 3 [JNum 1, JNum 2]))) =
     [HSet ''config:global'' ''b'' (JArr 3 [JNum 1, JNum 2])] \<and>
   fst (snd (set_entry array_member_example example_registry ''__proto__'' (JNum 5))) =
     [HSet ''config:global'' ''__proto__'' (JNum 5)] \<and>
   fst (snd (set_entry array_member_example
          (fst (set_entry array_member_example example_registry ''__proto__'' (JNum 5)))
          ''__proto__'' (JNum 5))) =
     [HSet ''config:global'' ''__proto__'' (JNum 5)]"
  by (simp add: value_eq_def example_registry_def js_get_def set_entry_def keyConfig_def
        js_assign_def setter_in_chain_def inherited_def object_prototype_member_def)

text \<open>
  C4, amended.  If \<open>v\<close> is strictly equal (\<^verbatim>\<open>===\<close>) to what the mirror reads for the key,
  \<open>set(key, v)\<close> changes nothing and does nothing: no request, no publication, no event.
  Every other \<open>v\<close> is assigned to the mirror and sent, one that has the same content in
  another array among them.  For a key other than \<open>__proto__\<close> and a value that is strictly equal to
  itself (any but \<open>NaN\<close>) a second \<open>set(key, v)\<close> right after the first is such a no-op, so
  the two calls send one \<open>hset\<close> when the first changed the mirror.
\<close>

theorem set_strictly_equal_is_noop:
  "(strict_eq_any (js_get am r key) v \<longrightarrow> set_entry am r key v = (r, [], None)) \<and>
   (\<not> strict_eq_any (js_get am r key) v \<longrightarrow>
      fst (set_entry am r key v) = js_assign r key v \<and>
      fst (snd (set_entry am r key v)) = [HSet (keyConfig r) key v]) \<and>
   (store r key = Some (JArr i xs) \<and> i \<noteq> j \<longrightarrow>
      value_eq (JArr j xs) (JArr i xs) \<and>
      fst (snd (set_entry am r key (JArr j xs))) = [HSet (keyConfig r) key (JArr j xs)]) \<and>
   (key \<noteq> ''__proto__'' \<and> strict_eq v v \<longrightarrow>
      set_entry am (fst (set_entry am r key v)) key v = (fst (set_entry am r key v), [], None)) \<and>
   (key \<noteq> ''__proto__'' \<and> strict_eq v v \<and> \<not> strict_eq_any (js_get am r key) v \<longrightarrow>
      fst (snd (set_entry am r key v)) @
      fst (snd (set_entry am (fst (set_entry am r key v)) key v)) =
        [HSet (keyConfig r) key v])"
proof -
  have a: "set_entry am r key v = (r, [], None)" if "strict_eq_any (js_get am r key) v"
    using that by (simp add: set_entry_def)
  have w: "fst (set_entry am r key u) = js_assign r key u \<and>
      fst (snd (set_entry am r key u)) = [HSet (keyConfig r) key u]"
    if "\<not> strict_eq_any (js_get am r key) u" for u
    using that by (simp add: set_entry_def)
  have arr: "value_eq (JArr j xs) (JArr i xs) \<and>
      fst (snd (set_entry am r key (JArr j xs))) = [HSet (keyConfig r) key (JArr j xs)]"
    if "store r key = Some (JArr i xs)" "i \<noteq> j"
  proof -
    from that have "\<not> strict_eq_any (js_get am r key) (JArr j xs)"
      by (simp add: js_get_def)
    from w[OF this] show ?thesis by (simp add: value_eq_def)
  qed
  have b: "set_entry am (fst (set_entry am r key v)) key v = (fst (set_entry am r key v), [], None)"
    if k: "key \<noteq> ''__proto__''" and s: "strict_eq v v"
  proof (cases "strict_eq_any (js_get am r key) v")
    case True
    then show ?thesis by (simp add: a)
  next
    case False
    then have "fst (set_entry am r key v) = r\<lparr>store := (store r)(key \<mapsto> v)\<rparr>"
      using w[OF False] k by (simp add: js_assign_ordinary)
    then show ?thesis using s by (simp add: set_entry_def[of am "r\<lparr>store := (store r)(key \<mapsto> v)\<rparr>"] js_get_def)
  qed
  have c: "fst (snd (set_entry am r key v)) @
      fst (snd (set_entry am (fst (set_entry am r key v)) key v)) =
        [HSet (keyConfig r) key v]"
    if "key \<noteq> ''__proto__''" "strict_eq v v" "\<not> strict_eq_any (js_get am r key) v"
    using b[OF that(1,2)] w[OF that(3)] by simp
  show ?thesis using a w arr b c by blast
qed

theorem set_strictly_equal_is_noop_witness:
  "strict_eq_any (js_get array_member_example example_registry ''k'') (JNum 1) \<and>
   set_entry array_member_example example_registry ''k'' (JNum 1) = (example_registry, [], None) \<and>
   strict_eq_any (js_get array_member_example example_registry ''b'') (JArr 1 [JNum 1, JNum 2]) \<and>
   set_entry array_member_example example_registry ''b'' (JArr 1 [JNum 1, JNum 2])
     = (example_registry, [], None) \<and>
   store example_registry ''b'' = Some (JArr 1 [JNum 1, JNum 2]) \<and>
   fst (snd (set_entry array_member_example example_registry ''b'' (JArr 2 [JNum 1, JNum 2])))
     = [HSet ''config:global'' ''b'' (JArr 2 [JNum 1, JNum 2])] \<and>
   ''k'' \<noteq> ''__proto__'' \<and>
   strict_eq (JNum 2) (JNum 2) \<and>
   \<not> strict_eq_any (js_get array_member_example example_registry ''k'') (JNum 2) \<and>
   fst (snd (set_entry array_member_example example_registry ''k'' (JNum 2))) @
   fst (snd (set_entry array_member_example
     (fst (set_entry array_member_example example_registry ''k'' (JNum 2))) ''k'' (JNum 2))) =
     [HSet ''config:global'' ''k'' (JNum 2)]"
proof -
  have g: "strict_eq_any (js_get array_member_example example_registry ''k'') (JNum 1)"
    "strict_eq_any (js_get array_member_example example_registry ''b'') (JArr 1 [JNum 1, JNum 2])"
    "\<not> strict_eq_any (js_get array_member_example example_registry ''k'') (JNum 2)"
    "store example_registry ''b'' = Some (JArr 1 [JNum 1, JNum 2])"
    by (simp_all add: example_registry_def js_get_def)
  have k: "keyConfig example_registry = ''config:global''"
    by (simp add: keyConfig_def example_registry_def)
  have n: "''k'' \<noteq> ''__proto__''" "(1::nat) \<noteq> 2" by simp_all
  note t1 = set_strictly_equal_is_noop[where r = example_registry and key = "''k''"
      and v = "JNum 1" and am = array_member_example]
  note t2 = set_strictly_equal_is_noop[where r = example_registry and key = "''b''"
      and v = "JArr 1 [JNum 1, JNum 2]" and am = array_member_example
      and i = 1 and j = 2 and xs = "[JNum 1, JNum 2]"]
  note t3 = set_strictly_equal_is_noop[where r = example_registry and key = "''k''"
      and v = "JNum 2" and am = array_member_example]
  have a: "set_entry array_member_example example_registry ''k'' (JNum 1)
      = (example_registry, [], None)"
    using t1 g(1) by blast
  have b: "set_entry array_member_example example_registry ''b'' (JArr 1 [JNum 1, JNum 2])
      = (example_registry, [], None)"
    using t2 g(2) by blast
  have b': "fst (snd (set_entry array_member_example example_registry ''b''
      (JArr 2 [JNum 1, JNum 2]))) = [HSet (keyConfig example_registry) ''b'' (JArr 2 [JNum 1, JNum 2])]"
    using t2 g(4) n(2) by blast
  have s: "strict_eq (JNum 2) (JNum 2)" by simp
  have c: "fst (snd (set_entry array_member_example example_registry ''k'' (JNum 2))) @
      fst (snd (set_entry array_member_example
         (fst (set_entry array_member_example example_registry ''k'' (JNum 2))) ''k'' (JNum 2))) =
        [HSet (keyConfig example_registry) ''k'' (JNum 2)]"
    using t3 g(3) s n(1) by blast
  show ?thesis using g a b b' n(1) s c unfolding k by blast
qed

section \<open>Watches\<close>

text \<open>
  C3.  The code does not call the callback of a watch when its key is cleared.  \<^verbatim>\<open>watch\<close>
  registers its clear listener for the event \<open>clear\<close>, and the registry announces a clear
  as \<open>cleared\<close>, so the listener is never reached.  On an instance with one live watch on
  \<open>k\<close>: a successful local \<open>clear("k")\<close> and a clear of \<open>k\<close> broadcast by a peer both emit
  \<open>cleared\<close> and \<open>updated\<close> and call nothing, while a set of \<open>k\<close> does call the callback.
\<close>

theorem watch_not_called_on_clear:
  "listeners watched_registry = [(''set'', ListenerSet 0), (''clear'', ListenerClear 0)] \<and>
   \<not> ended watched_registry 0 \<and>
   w_key (watchers watched_registry ! 0) = ''k'' \<and>
   clear array_member_example watched_registry ''k'' =
     Inr (watched_registry\<lparr>store := (store watched_registry)(''k'' := None)\<rparr>,
          [HDel ''config:global'' ''k'']) \<and>
   snd (clear_callback (watched_registry\<lparr>store := (store watched_registry)(''k'' := None)\<rparr>)
          ''k'' JNull) =
     [Publish ''ConfigClear:global'' \<lparr>sender = ''me'', arguments = [Data (JStr ''k'')]\<rparr>, Quit,
      Emit ''cleared'' [Data (JStr ''k'')], Emit ''updated'' []] \<and>
   snd (onSubscriberMessage (decode_as \<lparr>sender = ''peer'', arguments = [JStr ''k'']\<rparr>)
          conv_example array_member_example watched_registry ''ConfigClear:global'' ''m'') =
     [Emit ''cleared'' [Data (JStr ''k'')], Emit ''updated'' []] \<and>
   snd (set_callback watched_registry ''k'' (JNum 2) (Data (JNum 1)) JNull) =
     [Publish ''ConfigSet:global''
        \<lparr>sender = ''me'', arguments = [Data (JStr ''k''), Data (JNum 2), Data (JNum 1)]\<rparr>,
      Quit, Emit ''set'' [Data (JStr ''k''), Data (JNum 2), Data (JNum 1)],
      OnModified 0 (Data (JNum 2)), Emit ''updated'' []]"
proof -
  have r: "watched_registry =
      \<lparr>keyspace = ''global'',
       store = [''k'' \<mapsto> JNum 1, ''b'' \<mapsto> JArr 1 [JNum 1, JNum 2]],
       store_proto = ObjectProto, subscriber = True, uniqId = ''me'',
       listeners = [(''set'', ListenerSet 0), (''clear'', ListenerClear 0)],
       watchers = [\<lparr>w_key = ''k'', w_ended = False, w_onModified = (\<lambda>v. [])\<rparr>]\<rparr>"
    by (simp add: watched_registry_def example_registry_def watch_def
          eventNameSet_def eventNameClear_def)
  show ?thesis
    unfolding r
    by (simp add: ended_def clear_def hasOwnProperty_def js_get_def inherited_def
        object_prototype_member_def Object_prototype_names_def keyConfig_def
        clear_callback_def publish_def
        keySpaceChannel_def ChannelConfigClear_def ChannelConfigSet_def
        emitCleared_def emitSet_def emitUpdated_def emit_def
        onSubscriberMessage_def decode_as_def js_nth_def arg_nth_def set_callback_def
        listenerSet_def listenerClear_def onModified_def Let_def)
qed

section \<open>A disposed watch stays silent\<close>

text \<open>
  The \<open>ended\<close> flag of a watch is raised exactly by its disposer and never lowered, and a
  listener looks at the flag before it calls the callback.  \<open>tracks h r (r', es)\<close> says
  both for one piece of code that leads from \<open>r\<close> to \<open>r'\<close> with the effects \<open>es\<close>.
\<close>

lemma quiet_after_append:
  "quiet_after h d (es @ fs) =
     (quiet_after h d es \<and> quiet_after h (d \<or> Disposed h \<in> set es) fs)"
proof (induction es arbitrary: d)
  case Nil
  show ?case by simp
next
  case (Cons e es)
  show ?case
  proof (cases e)
    case (Disposed k)
    show ?thesis
    proof (cases "k = h")
      case True
      then show ?thesis using Disposed by (simp add: Cons.IH)
    next
      case False
      then have "Disposed h \<noteq> Disposed k" by simp
      then show ?thesis using Disposed False by (simp add: Cons.IH)
    qed
  qed (simp_all add: Cons.IH)
qed

lemma quiet_after_True_silent: "quiet_after h True es \<Longrightarrow> OnModified h v \<notin> set es"
proof (induction es)
  case Nil
  show ?case by simp
next
  case (Cons e es)
  then show ?case by (cases e) (auto split: if_splits)
qed

lemma tracks_same: "watchers r' = watchers r \<Longrightarrow> tracks h r (r', [])"
  by (simp add: tracks_def ended_def)

lemma tracks_from: "watchers r' = watchers r \<Longrightarrow> tracks h r' res \<Longrightarrow> tracks h r res"
  by (simp add: tracks_def ended_def)

lemma tracks_seq:
  "tracks h r (r1, es1) \<Longrightarrow> tracks h r1 (r2, es2) \<Longrightarrow> tracks h r (r2, es1 @ es2)"
  by (auto simp: tracks_def quiet_after_append)

lemma tracks_seq':
  "tracks h r a \<Longrightarrow> tracks h (fst a) b \<Longrightarrow> tracks h r (fst b, snd a @ snd b)"
  using tracks_seq[of h r "fst a" "snd a" "fst b" "snd b"] by simp

lemma tracks_after:
  "\<not> is_foreign e \<Longrightarrow> tracks h r res \<Longrightarrow> tracks h r (fst res, e # snd res)"
  by (cases e) (simp_all add: tracks_def)

lemma tracks_disposer: "tracks h r (disposer r k)"
  by (auto simp: tracks_def disposer_def ended_def nth_list_update)

lemma tracks_call_disposers: "tracks h r (call_disposers r ks)"
proof (induction ks arbitrary: r)
  case Nil
  show ?case by (simp add: tracks_same)
next
  case (Cons k ks)
  from tracks_seq'[OF tracks_disposer[of h r k] Cons.IH[of "fst (disposer r k)"]]
  show ?case by (simp add: case_prod_beta)
qed

lemma tracks_onModified: "\<not> ended r k \<Longrightarrow> tracks h r (onModified r k v)"
  using tracks_call_disposers[of h r "w_onModified (watchers r ! k) v"]
  by (auto simp: onModified_def case_prod_beta tracks_def)

lemma tracks_call_listener: "tracks h r (call_listener r l args)"
  by (cases l)
     (simp_all add: listenerSet_def listenerClear_def tracks_same tracks_onModified ended_def)

lemma tracks_dispatch: "tracks h r (dispatch r ls args)"
proof (induction ls arbitrary: r)
  case Nil
  show ?case by (simp add: tracks_same)
next
  case (Cons l ls)
  from tracks_seq'[OF tracks_call_listener[of h r l args]
      Cons.IH[of "fst (call_listener r l args)"]]
  show ?case by (simp add: case_prod_beta)
qed

lemma tracks_emit: "tracks h r (emit r name args)"
  using tracks_after[OF _ tracks_dispatch[of h r
        "map snd (filter (\<lambda>nl. fst nl = name) (listeners r))" args], of "Emit name args"]
  by (simp add: emit_def case_prod_beta)

lemma tracks_emitUpdated: "tracks h r (emitUpdated r)"
  by (simp add: emitUpdated_def tracks_emit)

lemma tracks_emitError: "tracks h r (emitError r err)"
  by (simp add: emitError_def tracks_emit)

lemma tracks_emitCleared: "tracks h r (emitCleared r key)"
  using tracks_seq'[OF tracks_emit[of h r "''cleared''" "[Data key]"]
      tracks_emitUpdated[of h "fst (emit r ''cleared'' [Data key])"]]
  by (simp add: emitCleared_def case_prod_beta)

lemma tracks_emitSet: "tracks h r (emitSet r key v p)"
  using tracks_seq'[OF tracks_emit[of h r "''set''" "[Data key, Data v, p]"]
      tracks_emitUpdated[of h "fst (emit r ''set'' [Data key, Data v, p])"]]
  by (simp add: emitSet_def case_prod_beta)

lemma tracks_call_callback: "tracks h r (call_callback r cb)"
proof (cases cb)
  case EmitReady
  then show ?thesis by (simp add: call_callback_def tracks_emit)
next
  case (Foreign n)
  then show ?thesis by (simp add: call_callback_def tracks_def)
qed

lemma js_assign_watchers: "watchers (js_assign r key v) = watchers r"
  by (simp add: js_assign_def split: jsval.splits)

lemma applyEncodedKeyValue_fold_watchers:
  "watchers (fold (\<lambda>(key, text) r'. applyEncodedKeyValue P r' key text) kts r) = watchers r"
  by (induction kts arbitrary: r)
     (auto simp: applyEncodedKeyValue_def js_assign_watchers split: option.splits)

lemma tracks_pull_callback: "tracks h r (pull_callback P r cb err hash)"
proof (cases "truthy err")
  case True
  from tracks_after[OF _ tracks_emitError[of h r err], of Quit] True
  show ?thesis by (simp add: pull_callback_def case_prod_beta)
next
  case False
  let ?r1 = "case hash of None \<Rightarrow> r
       | Some kts \<Rightarrow> fold (\<lambda>(key, text) r'. applyEncodedKeyValue P r' key text) kts r"
  let ?u = "emitUpdated ?r1"
  let ?c = "case cb of None \<Rightarrow> (fst ?u, []) | Some c \<Rightarrow> call_callback (fst ?u) c"
  have w: "watchers ?r1 = watchers r"
    by (cases hash) (simp_all add: applyEncodedKeyValue_fold_watchers)
  have c: "tracks h (fst ?u) ?c"
    by (cases cb) (simp_all add: tracks_same tracks_call_callback)
  have "tracks h ?r1 (fst ?c, snd ?u @ snd ?c)"
    by (rule tracks_seq'[OF tracks_emitUpdated c])
  from tracks_after[OF _ tracks_from[OF w this], of Quit] False
  show ?thesis by (simp add: pull_callback_def Let_def case_prod_beta)
qed

lemma tracks_set_callback: "tracks h r (set_callback r key v p err)"
  using tracks_after[OF _ tracks_after[OF _ tracks_emitError[of h r err], of Quit],
      of "publish r (keySpaceChannel r ChannelConfigSet) [Data (JStr key), Data v, p]"]
    tracks_after[OF _ tracks_after[OF _ tracks_emitSet[of h r "JStr key" v p], of Quit],
      of "publish r (keySpaceChannel r ChannelConfigSet) [Data (JStr key), Data v, p]"]
  by (simp add: set_callback_def Let_def case_prod_beta publish_def)

lemma tracks_clear_callback: "tracks h r (clear_callback r key err)"
  using tracks_after[OF _ tracks_after[OF _ tracks_emitError[of h r err], of Quit],
      of "publish r (keySpaceChannel r ChannelConfigClear) [Data (JStr key)]"]
    tracks_after[OF _ tracks_after[OF _ tracks_emitCleared[of h r "JStr key"], of Quit],
      of "publish r (keySpaceChannel r ChannelConfigClear) [Data (JStr key)]"]
  by (simp add: clear_callback_def Let_def case_prod_beta publish_def)

lemma tracks_onSubscriberMessage:
  "tracks h r (onSubscriberMessage decode conv am r channel message)"
proof -
  let ?k = "js_nth (arguments (decode message)) 0"
  let ?v = "js_nth (arguments (decode message)) 1"
  let ?rs = "js_assign r (ToPropertyKey conv ?k) ?v"
  let ?rc = "r\<lparr>store := (store r)(ToPropertyKey conv ?k := None)\<rparr>"
  have s: "tracks h r (emitSet ?rs ?k ?v (js_get am r (ToPropertyKey conv ?k)))"
    by (rule tracks_from[OF _ tracks_emitSet]) (simp add: js_assign_watchers)
  have c: "tracks h r (emitCleared ?rc ?k)"
    by (rule tracks_from[OF _ tracks_emitCleared]) simp
  show ?thesis using s c by (simp add: onSubscriberMessage_def Let_def tracks_same)
qed

lemma tracks_watch: "tracks h r (fst (watch r key f), [])"
  by (auto simp: tracks_def ended_def watch_def Let_def nth_append)

lemma tracks_step: "tracks h r (step P D C A r x)"
proof (cases x)
  case OpPull
  then show ?thesis by (simp add: pull_def tracks_def ended_def)
next
  case (OpPullCallback cb err hash)
  then show ?thesis by (simp add: tracks_pull_callback)
next
  case (OpWatch key f)
  then show ?thesis by (simp add: tracks_watch)
next
  case (OpDispose k)
  then show ?thesis by (simp add: tracks_disposer)
next
  case (OpSet key v)
  then show ?thesis
    by (simp add: set_entry_def Let_def tracks_def ended_def js_assign_watchers)
next
  case (OpSetCallback key v p err)
  then show ?thesis by (simp add: tracks_set_callback)
next
  case (OpClear key)
  then show ?thesis
    by (cases "hasOwnProperty A r key") (simp_all add: clear_def tracks_def ended_def)
next
  case (OpClearCallback key err)
  then show ?thesis by (simp add: tracks_clear_callback)
next
  case (OpMessage channel message)
  then show ?thesis by (simp add: tracks_onSubscriberMessage)
next
  case OpStartMonitor
  then show ?thesis by (simp add: startMonitor_def tracks_def ended_def)
next
  case OpStopMonitor
  then show ?thesis by (simp add: stopMonitor_def tracks_def ended_def)
qed

lemma tracks_run: "tracks h r (run P D C A r xs)"
proof (induction xs arbitrary: r)
  case Nil
  show ?case by (simp add: tracks_same)
next
  case (Cons x xs)
  from tracks_seq'[OF tracks_step[of h r P D C A x] Cons.IH[of "fst (step P D C A r x)"]]
  show ?case by (simp add: case_prod_beta)
qed

text \<open>
  C9.  In everything that can happen to an instance, in any order, the callback of a
  watch is never called after the disposer of that watch has been called, whether the
  disposer was called before the events began, between two of them, or by another
  callback while an event that the watch was registered for was being delivered.  In
  particular, from the moment the disposer of an existing watch returns, no set and no
  clear, local or from a peer, calls its callback.
\<close>

theorem disposed_watch_never_fires:
  "quiet_after h (ended r h) (snd (run JSON_parse decode conv am r xs)) \<and>
   (h < length (watchers r) \<longrightarrow>
      (\<forall>v. OnModified h v \<notin>
         set (snd (run JSON_parse decode conv am (fst (disposer r h)) xs))))"
proof -
  have a: "quiet_after h (ended r' h) (snd (run JSON_parse decode conv am r' xs))" for r'
    using tracks_run[of h r' JSON_parse decode conv am xs] by (simp add: tracks_def)
  have b: "OnModified h v \<notin> set (snd (run JSON_parse decode conv am (fst (disposer r h)) xs))"
    if "h < length (watchers r)" for v
  proof -
    from that have "ended (fst (disposer r h)) h"
      by (simp add: disposer_def ended_def)
    with a[of "fst (disposer r h)"] show ?thesis
      by (simp add: quiet_after_True_silent)
  qed
  show ?thesis using a b by blast
qed


theorem disposed_watch_never_fires_witness:
  "\<not> ended racing_registry 1 \<and>
   listeners racing_registry =
     [(''set'', ListenerSet 0), (''clear'', ListenerClear 0),
      (''set'', ListenerSet 1), (''clear'', ListenerClear 1)] \<and>
   snd (run parse_example (decode_as \<lparr>sender = ''peer'', arguments = [JStr ''k'', JNum 4, JNum 3]\<rparr>)
          conv_example array_member_example racing_registry
          [OpSetCallback ''k'' (JNum 2) (Data (JNum 1)) JNull,
           OpSetCallback ''k'' (JNum 3) (Data (JNum 2)) JNull,
           OpMessage ''ConfigSet:global'' ''m'']) =
     [Publish ''ConfigSet:global''
        \<lparr>sender = ''me'', arguments = [Data (JStr ''k''), Data (JNum 2), Data (JNum 1)]\<rparr>,
      Quit, Emit ''set'' [Data (JStr ''k''), Data (JNum 2), Data (JNum 1)],
      OnModified 0 (Data (JNum 2)), OnModified 1 (Data (JNum 2)), Emit ''updated'' [],
      Publish ''ConfigSet:global''
        \<lparr>sender = ''me'', arguments = [Data (JStr ''k''), Data (JNum 3), Data (JNum 2)]\<rparr>,
      Quit, Emit ''set'' [Data (JStr ''k''), Data (JNum 3), Data (JNum 2)],
      OnModified 0 (Data (JNum 3)), Disposed 1, Emit ''updated'' [],
      Emit ''set'' [Data (JStr ''k''), Data (JNum 4), Data (JNum 1)],
      OnModified 0 (Data (JNum 4)), Emit ''updated'' []] \<and>
   quiet_after 1 (ended racing_registry 1)
     (snd (run parse_example
          (decode_as \<lparr>sender = ''peer'', arguments = [JStr ''k'', JNum 4, JNum 3]\<rparr>)
          conv_example array_member_example racing_registry
          [OpSetCallback ''k'' (JNum 2) (Data (JNum 1)) JNull,
           OpSetCallback ''k'' (JNum 3) (Data (JNum 2)) JNull,
           OpMessage ''ConfigSet:global'' ''m''])) \<and>
   1 < length (watchers racing_registry) \<and>
   (\<forall>v. OnModified 1 v \<notin> set (snd (run parse_example
          (decode_as \<lparr>sender = ''peer'', arguments = [JStr ''k'', JNum 4, JNum 3]\<rparr>)
          conv_example array_member_example (fst (disposer racing_registry 1))
          [OpSetCallback ''k'' (JNum 2) (Data (JNum 1)) JNull,
           OpSetCallback ''k'' (JNum 3) (Data (JNum 2)) JNull,
           OpMessage ''ConfigSet:global'' ''m''])))"
proof -
  let ?d = "decode_as \<lparr>sender = ''peer'', arguments = [JStr ''k'', JNum 4, JNum 3]\<rparr>"
  let ?xs = "[OpSetCallback ''k'' (JNum 2) (Data (JNum 1)) JNull,
           OpSetCallback ''k'' (JNum 3) (Data (JNum 2)) JNull,
           OpMessage ''ConfigSet:global'' ''m'']"
  have r: "racing_registry =
      \<lparr>keyspace = ''global'',
       store = [''k'' \<mapsto> JNum 1, ''b'' \<mapsto> JArr 1 [JNum 1, JNum 2]],
       store_proto = ObjectProto,
       subscriber = True, uniqId = ''me'',
       listeners = [(''set'', ListenerSet 0), (''clear'', ListenerClear 0),
                    (''set'', ListenerSet 1), (''clear'', ListenerClear 1)],
       watchers = [\<lparr>w_key = ''k'', w_ended = False,
                     w_onModified = (\<lambda>v. if v = Data (JNum 3) then [1] else [])\<rparr>,
                   \<lparr>w_key = ''k'', w_ended = False, w_onModified = (\<lambda>v. [])\<rparr>]\<rparr>"
    by (simp add: racing_registry_def example_registry_def watch_def
          eventNameSet_def eventNameClear_def)
  have e: "\<not> ended racing_registry 1" by (simp add: r ended_def)
  have l: "listeners racing_registry =
     [(''set'', ListenerSet 0), (''clear'', ListenerClear 0),
      (''set'', ListenerSet 1), (''clear'', ListenerClear 1)]" by (simp add: r)
  have n: "1 < length (watchers racing_registry)" by (simp add: r)
  have t: "snd (run parse_example ?d conv_example array_member_example racing_registry ?xs) =
     [Publish ''ConfigSet:global''
        \<lparr>sender = ''me'', arguments = [Data (JStr ''k''), Data (JNum 2), Data (JNum 1)]\<rparr>,
      Quit, Emit ''set'' [Data (JStr ''k''), Data (JNum 2), Data (JNum 1)],
      OnModified 0 (Data (JNum 2)), OnModified 1 (Data (JNum 2)), Emit ''updated'' [],
      Publish ''ConfigSet:global''
        \<lparr>sender = ''me'', arguments = [Data (JStr ''k''), Data (JNum 3), Data (JNum 2)]\<rparr>,
      Quit, Emit ''set'' [Data (JStr ''k''), Data (JNum 3), Data (JNum 2)],
      OnModified 0 (Data (JNum 3)), Disposed 1, Emit ''updated'' [],
      Emit ''set'' [Data (JStr ''k''), Data (JNum 4), Data (JNum 1)],
      OnModified 0 (Data (JNum 4)), Emit ''updated'' []]"
    unfolding r
    by (simp add: set_callback_def publish_def keySpaceChannel_def ChannelConfigSet_def
          emitSet_def emitUpdated_def emit_def listenerSet_def listenerClear_def
          onModified_def disposer_def eventNameSet_def eventNameClear_def
          onSubscriberMessage_def decode_as_def js_nth_def arg_nth_def js_get_def
          js_assign_def setter_in_chain_def Let_def)
  note w = disposed_watch_never_fires[where h = 1 and r = racing_registry
      and JSON_parse = parse_example and decode = "?d" and xs = "?xs"
      and conv = conv_example and am = array_member_example]
  from w have q: "quiet_after 1 (ended racing_registry 1)
      (snd (run parse_example ?d conv_example array_member_example racing_registry ?xs))"
    by (rule conjunct1)
  from w n have s: "\<forall>v. OnModified 1 v \<notin> set (snd (run parse_example ?d
      conv_example array_member_example (fst (disposer racing_registry 1)) ?xs))"
    by blast
  show ?thesis using e l t q n s by blast
qed

end
